theory Spec2Isabelle
  imports Main "HOL-Library.Log_Nat"
begin

section \<open>The G-code writer of the glue dispenser\<close>

text \<open>
  The notebook \<^verbatim>\<open>src/GCode_writer.ipynb\<close> holds four text-building functions
  (\<^verbatim>\<open>initialize\<close>, \<^verbatim>\<open>moveTo\<close>, \<^verbatim>\<open>moveToEnd\<close>, \<^verbatim>\<open>glueDeposition\<close>) and a script cell that
  builds the serpentine list of glue dots and writes the program file. This theory embeds
  them as HOL functions. The ladder length, which the script fixes in the variable
  \<^verbatim>\<open>filename\<close>, is the parameter of the embedded script.
\<close>

subsection \<open>Python numbers and their formatting\<close>

text \<open>
  Python integers are unbounded: they are \<^typ>\<open>int\<close>. A Python float is an IEEE binary64
  number; a finite one is a rational, and the model carries it as that rational
  (\<^typ>\<open>rat\<close>). Every float operation rounds its exact result to the nearest binary64
  number, ties to the even significand: \<open>fl64\<close> below. The significand has 53 bits; the
  smallest spacing of binary64 numbers is \<open>2\<^sup>-\<^sup>1\<^sup>0\<^sup>7\<^sup>4\<close>. Overflow to infinity (magnitudes
  from \<open>2\<^sup>1\<^sup>0\<^sup>2\<^sup>4\<close> on), infinities, NaN and the sign of zero have no counterpart in
  \<^typ>\<open>rat\<close>; no value of the script comes near them.
\<close>

definition round_half_even :: "rat \<Rightarrow> int" where
  "round_half_even q =
     (let f = \<lfloor>q\<rfloor>; d = q - of_int f in
      if d < 1 / 2 then f else if 1 / 2 < d then f + 1 else if even f then f else f + 1)"

definition pow2 :: "int \<Rightarrow> rat" where
  "pow2 e = (if 0 \<le> e then 2 ^ nat e else 1 / 2 ^ nat (- e))"

text \<open>
  The binary exponent of a positive rational: \<open>pow2 (expo x) \<le> x < pow2 (expo x + 1)\<close>
  (lemma \<open>expo_bounds\<close> below).
\<close>

definition expo :: "rat \<Rightarrow> int" where
  "expo x = (if 1 \<le> x then bitlen \<lfloor>x\<rfloor> - 1 else - bitlen (\<lceil>1 / x\<rceil> - 1))"

definition fl64 :: "rat \<Rightarrow> rat" where
  "fl64 x =
     (if x = 0 then 0
      else let u = pow2 (max (expo \<bar>x\<bar> - 52) (- 1074))
           in sgn x * of_int (round_half_even (\<bar>x\<bar> / u)) * u)"

text \<open>Float product and difference, and the conversion of an integer to a float.\<close>

definition f64_mul :: "rat \<Rightarrow> rat \<Rightarrow> rat" where
  "f64_mul a b = fl64 (a * b)"

definition f64_sub :: "rat \<Rightarrow> rat \<Rightarrow> rat" where
  "f64_sub a b = fl64 (a - b)"

definition f64_of_int :: "int \<Rightarrow> rat" where
  "f64_of_int n = fl64 (of_int n)"

text \<open>The line terminator \<^verbatim>\<open>\n\<close>.\<close>

definition nl :: string where
  "nl = [CHR 0x0A]"

definition digit_char :: "nat \<Rightarrow> char" where
  "digit_char d = ''0123456789'' ! d"

fun str_nat :: "nat \<Rightarrow> string" where
  "str_nat n = (if n < 10 then [digit_char n] else str_nat (n div 10) @ [digit_char (n mod 10)])"

declare str_nat.simps [simp del]

text \<open>\<^verbatim>\<open>f'{n}'\<close> for an integer \<open>n\<close>.\<close>

definition str_int :: "int \<Rightarrow> string" where
  "str_int n = (if n < 0 then ''-'' @ str_nat (nat (- n)) else str_nat (nat n))"

definition zfill :: "nat \<Rightarrow> string \<Rightarrow> string" where
  "zfill w s = replicate (w - length s) (CHR ''0'') @ s"

text \<open>
  \<^verbatim>\<open>f'{n:03d}'\<close>: at least three characters, zeros between the sign and the digits. The
  format code \<^verbatim>\<open>d\<close> accepts integers only; on a float Python raises \<^verbatim>\<open>ValueError\<close>.
\<close>

definition fmt_03d :: "int \<Rightarrow> string" where
  "fmt_03d n = (if n < 0 then ''-'' @ zfill 2 (str_nat (nat (- n))) else zfill 3 (str_nat (nat n)))"

text \<open>
  \<^verbatim>\<open>f'{x:.3f}'\<close>: the exact value of the float, rounded to three decimals (ties to even),
  with the sign of \<open>x\<close> kept even when the digits round to zero. An integer argument is
  first converted to a float, which changes nothing below \<open>2\<^sup>5\<^sup>3\<close>.
\<close>

definition fmt_3f :: "rat \<Rightarrow> string" where
  "fmt_3f x =
     (let r = round_half_even (\<bar>x\<bar> * 1000)
      in (if x < 0 then ''-'' else []) @ str_nat (nat (r div 1000)) @ ''.'' @
         zfill 3 (str_nat (nat (r mod 1000))))"

subsection \<open>The four emitters\<close>

definition initialize :: "rat \<times> rat \<Rightarrow> int \<Rightarrow> bool \<Rightarrow> string" where
  "initialize zero_glue feed_rate fast =
     ''; Program initialization'' @ nl @
     ''$100=159.949; X axis steps/mm'' @ nl @
     ''$101=160.241; Y axis steps/mm'' @ nl @
     ''$130=990; X axis maximum travel'' @ nl @
     ''$X; GRBL unlock'' @ nl @
     ''M3'' @ nl @
     ''F'' @ str_int feed_rate @ nl @
     ''$H; GRBL homing'' @ nl @
     ''G91'' @ nl @
     (if fast then ''G00'' else ''G01'') @
     ''X'' @ fmt_3f (fst zero_glue) @ ''Y'' @ fmt_3f (snd zero_glue) @ nl @
     ''; End of program initialization'' @ nl"

definition moveTo :: "rat \<times> rat \<Rightarrow> bool \<Rightarrow> string \<Rightarrow> string" where
  "moveTo xy fast comment =
     (let x = fst xy; y = snd xy;
          s = (if fast then ''G00'' else ''G01'');
          s = (if \<not> x = 0 then s @ ''X'' @ fmt_3f x else s);
          s = (if \<not> y = 0 then s @ ''Y'' @ fmt_3f y else s);
          s = s @ comment;
          s = s @ nl
      in s)"

definition moveToEnd :: "bool \<Rightarrow> string" where
  "moveToEnd fast = ''G90'' @ nl @ (if fast then ''G00'' else ''G01'') @ ''X950''"

definition glueDeposition :: "int \<Rightarrow> int \<Rightarrow> int \<Rightarrow> string" where
  "glueDeposition pause_long pause_short pause_glue =
     ''; ------- Glue deposition -------'' @ nl @
     ''M4'' @ nl @
     ''G4 P'' @ fmt_03d pause_long @ nl @
     ''M8'' @ nl @
     ''G4 P'' @ fmt_03d pause_short @ nl @
     ''M9'' @ nl @
     ''G4 P'' @ fmt_03d pause_glue @ nl @
     ''M3'' @ nl @
     ''G4 P'' @ fmt_03d pause_long @ nl @
     ''; ------- End of glue deposition -------'' @ nl"

subsection \<open>The script: grid of glue dots and program file\<close>

definition fastmovement :: bool where
  "fastmovement = True"

definition stepX :: int where
  "stepX = 20"

text \<open>The float literal \<^verbatim>\<open>26.2\<close>.\<close>

definition stepY :: rat where
  "stepY = fl64 (131 / 5)"

definition glueDots_X :: "int \<Rightarrow> int" where
  "glueDots_X filename = 50 - ((12 - filename + 1) * 4)"

text \<open>\<^verbatim>\<open>range(n)\<close>: empty when \<open>n \<le> 0\<close>.\<close>

definition range_py :: "int \<Rightarrow> int list" where
  "range_py n = map int [0..<nat n]"

text \<open>
  The two nested loops append one tuple per step. The tuple holds a Python integer
  (\<^verbatim>\<open>j*stepX\<close>) and a float (\<^verbatim>\<open>i*stepY\<close>, the product of an integer and a float).
\<close>

definition glueDots :: "int \<Rightarrow> (int \<times> rat) list" where
  "glueDots filename =
     fold (\<lambda>i dots.
        fold (\<lambda>j dots.
           if i mod 2 = 0
           then dots @ [(j * stepX, f64_mul (of_int i) stepY)]
           else dots @ [((glueDots_X filename - j - 1) * stepX, f64_mul (of_int i) stepY)])
          (range_py (glueDots_X filename)) dots)
       (range_py 4) []"

text \<open>\<^verbatim>\<open>np.array(glueDots)\<close>: every entry becomes a binary64 number.\<close>

definition glueCoord :: "int \<Rightarrow> (rat \<times> rat) list" where
  "glueCoord filename = map (\<lambda>(x, y). (f64_of_int x, y)) (glueDots filename)"

text \<open>The two comment texts of the writing loop, with the constant 51 as the source has it.\<close>

definition dot_comment :: "int \<Rightarrow> string" where
  "dot_comment i =
     '' ; Glue dot in position ('' @
     str_int (if (i div 51) mod 2 = 0 then i mod 51 else 50 - i mod 51) @ '', '' @
     str_int ((i div 51) mod 4) @ '')''"

definition first_dot_line :: "int \<Rightarrow> string" where
  "first_dot_line i =
     ''; First glue dot in position ('' @ str_int (i mod 51) @ '', '' @
     str_int ((i div 51) mod 4) @ '')'' @ nl"

definition delta_of :: "rat \<times> rat \<Rightarrow> rat \<times> rat \<Rightarrow> rat \<times> rat" where
  "delta_of xy oldXY = (f64_sub (fst xy) (fst oldXY), f64_sub (snd xy) (snd oldXY))"

text \<open>
  One pass of the writing loop. The state is the previous position \<^verbatim>\<open>oldXY\<close> and the list
  of strings written to the file so far.
\<close>

definition write_dot :: "(rat \<times> rat) list \<Rightarrow> nat \<Rightarrow> (rat \<times> rat) \<times> string list \<Rightarrow> (rat \<times> rat) \<times> string list" where
  "write_dot coord i st =
     (let oldXY = fst st; written = snd st;
          xy = coord ! i;
          delta = delta_of xy oldXY;
          written =
            (if \<not> (fst delta = 0 \<and> snd delta = 0)
             then written @ [moveTo delta fastmovement (dot_comment (int i))]
             else written @ [first_dot_line (int i)]);
          written = written @ [glueDeposition 2 1 1]
      in (xy, written))"

datatype py_error = IndexError

text \<open>
  What a run of the script leaves behind: the lines printed, the file (its name and the
  strings written to it, in order; \<open>None\<close> when it was never opened) and the exception
  that ended the run, if any.
\<close>

record outcome =
  printed :: "string list"
  gcode :: "(string \<times> string list) option"
  raised :: "py_error option"

text \<open>
  The script cell. \<^verbatim>\<open>oldXY = glueCoord[0]\<close> comes before the file is opened and raises
  \<^verbatim>\<open>IndexError\<close> on an empty array.
\<close>

definition script :: "int \<Rightarrow> outcome" where
  "script filename =
     (let dots = glueDots filename;
          coord = glueCoord filename
      in if coord = [] then \<lparr>printed = [], gcode = None, raised = Some IndexError\<rparr>
         else
           let oldXY = coord ! 0;
               out = [str_int (int (length dots))];
               written = [initialize (0, 237) 1000 True];
               written = snd (fold (write_dot coord) [0..<length coord] (oldXY, written));
               written = written @ [''SH'']
           in \<lparr>printed = out,
               gcode = Some (''./'' @ str_int filename @ ''Si.gcode'', written),
               raised = None\<rparr>)"

text \<open>The whole text of the file.\<close>

definition file_text :: "outcome \<Rightarrow> string option" where
  "file_text r = map_option (\<lambda>(name, written). concat written) (gcode r)"

subsection \<open>Notions used to state the properties\<close>

text \<open>Row \<open>i\<close> of the grid: the \<open>i\<close>-th block of \<open>glueDots_X\<close> consecutive dots.\<close>

definition grid_row :: "int \<Rightarrow> nat \<Rightarrow> (int \<times> rat) list" where
  "grid_row filename i =
     take (nat (glueDots_X filename)) (drop (i * nat (glueDots_X filename)) (glueDots filename))"

text \<open>
  The string one pass of the writing loop puts before the deposition block, for the dot
  \<open>xy\<close> of index \<open>i\<close> reached from \<open>oldXY\<close>; and the value of \<^verbatim>\<open>oldXY\<close> at the start of
  pass \<open>i\<close>.
\<close>

definition dot_line :: "rat \<times> rat \<Rightarrow> rat \<times> rat \<Rightarrow> nat \<Rightarrow> string" where
  "dot_line xy oldXY i =
     (if \<not> (fst (delta_of xy oldXY) = 0 \<and> snd (delta_of xy oldXY) = 0)
      then moveTo (delta_of xy oldXY) fastmovement (dot_comment (int i))
      else first_dot_line (int i))"

definition previous_dot :: "(rat \<times> rat) list \<Rightarrow> nat \<Rightarrow> rat \<times> rat" where
  "previous_dot coord i = (if i = 0 then coord ! 0 else coord ! (i - 1))"

text \<open>
  The logical position of dot \<open>i\<close> as the specification derives it from the row width,
  and the coordinate the grid formula gives to a logical position \<open>(column, row)\<close>.
\<close>

definition spec_position :: "int \<Rightarrow> int \<Rightarrow> int \<times> int" where
  "spec_position rowWidth i =
     (let row = (i div rowWidth) mod 4
      in (if row mod 2 = 0 then i mod rowWidth else rowWidth - 1 - i mod rowWidth, row))"

definition position_coord :: "int \<times> int \<Rightarrow> rat \<times> rat" where
  "position_coord p = (f64_of_int (fst p * stepX), f64_mul (of_int (snd p)) stepY)"

text \<open>The lines of a text in which every line ends with the terminator.\<close>

fun lines_of :: "string \<Rightarrow> string list" where
  "lines_of [] = []"
| "lines_of (c # cs) =
     (if c = CHR 0x0A then [] # lines_of cs
      else case lines_of cs of [] \<Rightarrow> [[c]] | l # ls \<Rightarrow> (c # l) # ls)"

definition is_digit :: "char \<Rightarrow> bool" where
  "is_digit c = (c \<in> set ''0123456789'')"

text \<open>A number printed with exactly three decimals: sign, digits, point, three digits.\<close>

definition three_decimals :: "string \<Rightarrow> bool" where
  "three_decimals s =
     (let t = (if take 1 s = ''-'' then drop 1 s else s); n = length t
      in 5 \<le> n \<and> list_all is_digit (take (n - 4) t) \<and> t ! (n - 4) = CHR ''.'' \<and>
         list_all is_digit (drop (n - 3) t))"

section \<open>Auxiliary facts\<close>

subsection \<open>Printed numbers\<close>

lemma digit_char_is_digit: "d < 10 \<Longrightarrow> is_digit (digit_char d)"
proof -
  assume "d < 10"
  then have "d \<in> {0,1,2,3,4,5,6,7,8,9}" by auto
  then show ?thesis by (auto simp: is_digit_def digit_char_def)
qed

lemma str_nat_digits: "list_all is_digit (str_nat n)"
proof (induction n rule: str_nat.induct)
  case (1 n)
  show ?case
  proof (cases "n < 10")
    case True
    then show ?thesis by (simp add: str_nat.simps[of n] digit_char_is_digit)
  next
    case False
    with 1 show ?thesis by (simp add: str_nat.simps[of n] digit_char_is_digit)
  qed
qed

lemma str_nat_nonempty: "str_nat n \<noteq> []"
  by (subst str_nat.simps) simp

lemma str_nat_length1: "n < 10 \<Longrightarrow> length (str_nat n) = 1"
  by (subst str_nat.simps) simp

lemma str_nat_length2: "n < 100 \<Longrightarrow> length (str_nat n) \<le> 2"
proof -
  assume n: "n < 100"
  then have "n div 10 < 10" by simp
  then have "length (str_nat (n div 10)) = 1" by (rule str_nat_length1)
  then show ?thesis by (subst str_nat.simps) simp
qed

lemma str_nat_length3: "n < 1000 \<Longrightarrow> length (str_nat n) \<le> 3"
proof -
  assume n: "n < 1000"
  then have "n div 10 < 100" by simp
  then have "length (str_nat (n div 10)) \<le> 2" by (rule str_nat_length2)
  then show ?thesis by (subst str_nat.simps) simp
qed

lemma is_digit_zero: "is_digit (CHR ''0'')"
  by (simp add: is_digit_def)

lemma zfill_digits: "list_all is_digit s \<Longrightarrow> list_all is_digit (zfill w s)"
  by (auto simp: zfill_def list_all_iff is_digit_zero)

lemma zfill_length: "length s \<le> w \<Longrightarrow> length (zfill w s) = w"
  by (simp add: zfill_def)

lemma three_decimalsI:
  assumes sg: "sg = [] \<or> sg = ''-''"
    and ds: "ds \<noteq> []" "list_all is_digit ds"
    and fr: "length fr = 3" "list_all is_digit fr"
  shows "three_decimals (sg @ ds @ ''.'' @ fr)"
proof -
  from ds obtain d ds' where dd: "ds = d # ds'" "is_digit d"
    by (cases ds) auto
  then have d: "d \<noteq> CHR ''-''"
    by (auto simp: is_digit_def)
  have t: "(if take 1 (sg @ ds @ ''.'' @ fr) = ''-'' then drop 1 (sg @ ds @ ''.'' @ fr)
            else sg @ ds @ ''.'' @ fr) = ds @ ''.'' @ fr"
    using sg d by (auto simp: dd)
  have n: "length (ds @ ''.'' @ fr) - 4 = length ds"
          "length (ds @ ''.'' @ fr) - 3 = Suc (length ds)"
    using fr by auto
  have "5 \<le> length (ds @ ''.'' @ fr)"
    using fr by (simp add: dd)
  with ds fr show ?thesis
    unfolding three_decimals_def t Let_def n
    by (simp add: nth_append)
qed

lemma three_decimals_fmt_3f: "three_decimals (fmt_3f x)"
proof -
  define r where "r = round_half_even (\<bar>x\<bar> * 1000)"
  have "nat (r mod 1000) < 1000" by simp
  then have len: "length (zfill 3 (str_nat (nat (r mod 1000)))) = 3"
    by (simp add: zfill_length str_nat_length3)
  have "three_decimals ((if x < 0 then ''-'' else []) @ str_nat (nat (r div 1000)) @ ''.'' @ zfill 3 (str_nat (nat (r mod 1000))))"
    by (rule three_decimalsI) (simp_all add: str_nat_nonempty str_nat_digits zfill_digits len)
  then show ?thesis by (simp add: fmt_3f_def r_def Let_def)
qed

lemma not_is_digit_nl: "\<not> is_digit (CHR 0x0A)"
  by (simp add: is_digit_def)

lemma nl_notin_digits: "list_all is_digit s \<Longrightarrow> CHR 0x0A \<notin> set s"
  using not_is_digit_nl by (auto simp: list_all_iff)

lemma round_half_even_of_int: "round_half_even (of_int m) = m"
  by (simp add: round_half_even_def)

subsection \<open>Lines of the emitted blocks\<close>

lemma lines_of_line:
  "CHR 0x0A \<notin> set l \<Longrightarrow> lines_of (l @ nl @ rest) = l # lines_of rest"
  by (induction l) (auto simp: nl_def)

lemma lines_of_unlines:
  "\<forall>l \<in> set ls. CHR 0x0A \<notin> set l \<Longrightarrow> lines_of (concat (map (\<lambda>l. l @ nl) ls)) = ls"
  by (induction ls) (simp_all add: lines_of_line)

lemma nl_notin_str_nat: "CHR 0x0A \<notin> set (str_nat n)"
  by (rule nl_notin_digits) (rule str_nat_digits)

lemma nl_notin_zfill: "CHR 0x0A \<notin> set (zfill w (str_nat n))"
  by (rule nl_notin_digits) (simp add: zfill_digits str_nat_digits)

lemma nl_notin_str_int: "CHR 0x0A \<notin> set (str_int n)"
  by (simp add: str_int_def nl_notin_str_nat)

lemma nl_notin_fmt_03d: "CHR 0x0A \<notin> set (fmt_03d n)"
  by (simp add: fmt_03d_def nl_notin_zfill)

lemma nl_notin_fmt_3f: "CHR 0x0A \<notin> set (fmt_3f x)"
  by (simp add: fmt_3f_def Let_def nl_notin_zfill nl_notin_str_nat)

lemma glueDeposition_unlines:
  "glueDeposition a b c = concat (map (\<lambda>l. l @ nl)
     [''; ------- Glue deposition -------'', ''M4'', ''G4 P'' @ fmt_03d a, ''M8'',
      ''G4 P'' @ fmt_03d b, ''M9'', ''G4 P'' @ fmt_03d c, ''M3'', ''G4 P'' @ fmt_03d a,
      ''; ------- End of glue deposition -------''])"
  by (simp add: glueDeposition_def)

lemma lines_of_glueDeposition:
  "lines_of (glueDeposition a b c) =
     [''; ------- Glue deposition -------'', ''M4'', ''G4 P'' @ fmt_03d a, ''M8'',
      ''G4 P'' @ fmt_03d b, ''M9'', ''G4 P'' @ fmt_03d c, ''M3'', ''G4 P'' @ fmt_03d a,
      ''; ------- End of glue deposition -------'']"
  unfolding glueDeposition_unlines
  by (rule lines_of_unlines) (simp add: nl_notin_fmt_03d)

lemma initialize_unlines:
  "initialize (zx, zy) fr fast = concat (map (\<lambda>l. l @ nl)
     [''; Program initialization'', ''$100=159.949; X axis steps/mm'',
      ''$101=160.241; Y axis steps/mm'', ''$130=990; X axis maximum travel'',
      ''$X; GRBL unlock'', ''M3'', ''F'' @ str_int fr, ''$H; GRBL homing'', ''G91'',
      (if fast then ''G00'' else ''G01'') @ ''X'' @ fmt_3f zx @ ''Y'' @ fmt_3f zy,
      ''; End of program initialization''])"
  by (simp add: initialize_def)

lemma lines_of_initialize:
  "lines_of (initialize (zx, zy) fr fast) =
     [''; Program initialization'', ''$100=159.949; X axis steps/mm'',
      ''$101=160.241; Y axis steps/mm'', ''$130=990; X axis maximum travel'',
      ''$X; GRBL unlock'', ''M3'', ''F'' @ str_int fr, ''$H; GRBL homing'', ''G91'',
      (if fast then ''G00'' else ''G01'') @ ''X'' @ fmt_3f zx @ ''Y'' @ fmt_3f zy,
      ''; End of program initialization'']"
  unfolding initialize_unlines
  by (rule lines_of_unlines) (simp add: nl_notin_fmt_3f nl_notin_str_int)

lemma fmt_03d_small:
  assumes "0 \<le> p" "p < 1000"
  shows "length (fmt_03d p) = 3" "list_all is_digit (fmt_03d p)"
proof -
  from assms have "nat p < 1000" by simp
  then have "length (str_nat (nat p)) \<le> 3" by (rule str_nat_length3)
  with assms(1) show "length (fmt_03d p) = 3" "list_all is_digit (fmt_03d p)"
    by (simp_all add: fmt_03d_def zfill_length zfill_digits str_nat_digits)
qed

lemma fmt_consts:
  "fmt_03d 2 = ''002''" "fmt_03d 1 = ''001''" "fmt_3f 0 = ''0.000''" "fmt_3f 237 = ''237.000''"
  "str_int 1000 = ''1000''"
  by code_simp+

lemma fmt_3f_examples:
  "fmt_3f 20 = ''20.000''" "fmt_3f (- (131 / 5)) = ''-26.200''"
  by code_simp+

subsection \<open>Rounding to binary64\<close>

text \<open>
  The exponent is the right one, and \<open>fl64\<close> stays within half a unit of the spacing it
  rounds to.
\<close>

lemma pow2_nonneg_exp: "0 \<le> e \<Longrightarrow> pow2 e = 2 ^ nat e"
  by (simp add: pow2_def)

lemma pow2_nonpos_exp: "e \<le> 0 \<Longrightarrow> pow2 e = 1 / 2 ^ nat (- e)"
  by (cases "e = 0") (simp_all add: pow2_def)

lemma expo_bounds_ge_1:
  assumes "1 \<le> x"
  shows "pow2 (expo x) \<le> x \<and> x < pow2 (expo x + 1)"
proof -
  define n where "n = \<lfloor>x\<rfloor>"
  from assms have n: "0 < n" by (simp add: n_def)
  from bitlen_bounds[OF n] have b: "2 ^ nat (bitlen n - 1) \<le> n" "n < 2 ^ nat (bitlen n)"
    by simp_all
  from n have b1: "1 \<le> bitlen n"
    using bitlen_eq_zero_iff[of n] bitlen_nonneg[of n] by linarith
  have e: "expo x = bitlen n - 1"
    using assms by (simp add: expo_def n_def)
  have "(2::rat) ^ nat (bitlen n - 1) = of_int (2 ^ nat (bitlen n - 1))" by simp
  also have "\<dots> \<le> of_int n" using b(1) by (simp only: of_int_le_iff)
  also have "\<dots> \<le> x" by (simp add: n_def)
  finally have lo: "pow2 (expo x) \<le> x"
    using b1 by (simp add: e pow2_nonneg_exp)
  from b(2) have "n + 1 \<le> 2 ^ nat (bitlen n)" by simp
  then have "(of_int (n + 1) :: rat) \<le> of_int (2 ^ nat (bitlen n))"
    by (simp only: of_int_le_iff)
  moreover have "x < of_int (n + 1)" using floor_correct[of x] by (simp add: n_def)
  ultimately have "x < 2 ^ nat (bitlen n)" by simp
  then have hi: "x < pow2 (expo x + 1)"
    using b1 by (simp add: e pow2_nonneg_exp)
  from lo hi show ?thesis ..
qed

lemma expo_bounds_lt_1:
  assumes "0 < x" "x < 1"
  shows "pow2 (expo x) \<le> x \<and> x < pow2 (expo x + 1)"
proof -
  define t where "t = 1 / x"
  define m where "m = \<lceil>t\<rceil> - 1"
  from assms have t1: "1 < t" by (simp add: t_def)
  then have m: "0 < m" by (simp add: m_def less_ceiling_iff)
  from bitlen_bounds[OF m] have b: "2 ^ nat (bitlen m - 1) \<le> m" "m < 2 ^ nat (bitlen m)"
    by simp_all
  from m have b1: "1 \<le> bitlen m"
    using bitlen_eq_zero_iff[of m] bitlen_nonneg[of m] by linarith
  have e: "expo x = - bitlen m"
    using assms by (simp add: expo_def m_def t_def)
  have tm: "of_int m < t" "t \<le> of_int (m + 1)"
    using ceiling_correct[of t] by (simp_all add: m_def)
  from b(2) have "m + 1 \<le> 2 ^ nat (bitlen m)" by simp
  then have "(of_int (m + 1) :: rat) \<le> of_int (2 ^ nat (bitlen m))"
    by (simp only: of_int_le_iff)
  with tm(2) have "t \<le> of_int (2 ^ nat (bitlen m))" by (rule order_trans)
  then have "t \<le> 2 ^ nat (bitlen m)" by simp
  then have "1 / 2 ^ nat (bitlen m) \<le> x"
    using assms(1) by (simp add: t_def field_simps)
  then have lo: "pow2 (expo x) \<le> x"
    using b1 by (simp add: e pow2_nonpos_exp)
  have "(2::rat) ^ nat (bitlen m - 1) = of_int (2 ^ nat (bitlen m - 1))" by simp
  also have "\<dots> \<le> of_int m" using b(1) by (simp only: of_int_le_iff)
  also have "\<dots> < t" by (rule tm(1))
  finally have "x < 1 / 2 ^ nat (bitlen m - 1)"
    using assms(1) by (simp add: t_def field_simps)
  moreover have "nat (- (- bitlen m + 1)) = nat (bitlen m - 1)" by simp
  ultimately have hi: "x < pow2 (expo x + 1)"
    using b1 by (simp add: e pow2_nonpos_exp)
  from lo hi show ?thesis ..
qed

lemma expo_bounds: "0 < x \<Longrightarrow> pow2 (expo x) \<le> x \<and> x < pow2 (expo x + 1)"
  using expo_bounds_ge_1[of x] expo_bounds_lt_1[of x] by (cases "1 \<le> x") simp_all

lemma round_half_even_error: "\<bar>of_int (round_half_even q) - q\<bar> \<le> 1 / 2"
proof -
  have "of_int \<lfloor>q\<rfloor> \<le> q" "q < of_int \<lfloor>q\<rfloor> + 1"
    by linarith+
  then show ?thesis
    by (auto simp: round_half_even_def Let_def abs_le_iff)
qed

lemma pow2_pos: "0 < pow2 e"
  by (simp add: pow2_def)

lemma fl64_error:
  "\<bar>fl64 x - x\<bar> \<le> pow2 (max (expo \<bar>x\<bar> - 52) (- 1074)) / 2"
proof (cases "x = 0")
  case True
  then show ?thesis using pow2_pos[of "max (expo \<bar>x\<bar> - 52) (- 1074)"] by (simp add: fl64_def)
next
  case False
  define u where "u = pow2 (max (expo \<bar>x\<bar> - 52) (- 1074))"
  define r where "r = round_half_even (\<bar>x\<bar> / u)"
  have u: "0 < u" by (simp add: u_def pow2_pos)
  have f: "fl64 x = sgn x * of_int r * u"
    using False by (simp add: fl64_def Let_def u_def r_def)
  have "\<bar>of_int r - \<bar>x\<bar> / u\<bar> \<le> 1 / 2"
    unfolding r_def by (rule round_half_even_error)
  then have "\<bar>of_int r - \<bar>x\<bar> / u\<bar> * u \<le> 1 / 2 * u"
    using u by (intro mult_right_mono) simp_all
  then have e1: "\<bar>of_int r - \<bar>x\<bar> / u\<bar> * u \<le> u / 2"
    by simp
  have e2: "\<bar>of_int r - \<bar>x\<bar> / u\<bar> * u = \<bar>of_int r * u - \<bar>x\<bar>\<bar>"
  proof -
    have "\<bar>of_int r - \<bar>x\<bar> / u\<bar> * u = \<bar>(of_int r - \<bar>x\<bar> / u) * u\<bar>"
      using u by (simp add: abs_mult_pos)
    also have "(of_int r - \<bar>x\<bar> / u) * u = of_int r * u - \<bar>x\<bar>"
      using u by (simp add: left_diff_distrib)
    finally show ?thesis .
  qed
  have e3: "\<bar>sgn x * of_int r * u - x\<bar> = \<bar>of_int r * u - \<bar>x\<bar>\<bar>"
  proof (cases "0 < x")
    case True
    then show ?thesis by simp
  next
    case neg: False
    with False have "x < 0" by simp
    then have s: "sgn x = - 1" and a: "\<bar>x\<bar> = - x" by simp_all
    have "sgn x * of_int r * u - x = - (of_int r * u - \<bar>x\<bar>)"
      unfolding s a by (simp add: algebra_simps)
    then show ?thesis by (simp only: abs_minus_cancel)
  qed
  from e1 have "\<bar>sgn x * of_int r * u - x\<bar> \<le> u / 2"
    unfolding e2 e3 .
  then show ?thesis
    unfolding f u_def .
qed

lemma fl64_examples:
  "fl64 (1 / 10) = 3602879701896397 / 36028797018963968"
  "fl64 (1 / 3) = 6004799503160661 / 18014398509481984"
  "fl64 (131 / 5) = 7374644389819187 / 281474976710656"
  by code_simp+

lemma bitlen_le_53:
  assumes "0 < n" "n < 2 ^ 53"
  shows "1 \<le> bitlen n" "bitlen n \<le> 53"
proof -
  from assms(1) show b1: "1 \<le> bitlen n"
    using bitlen_eq_zero_iff[of n] bitlen_nonneg[of n] by linarith
  from bitlen_bounds[OF assms(1)] assms(2) have h: "(2::int) ^ nat (bitlen n - 1) < 2 ^ 53"
    by linarith
  have "nat (bitlen n - 1) < 53"
    by (rule power_less_imp_less_exp[of "2::int"]) (use h in simp_all)
  with b1 show "bitlen n \<le> 53" by linarith
qed

lemma fl64_pos_int:
  assumes "0 < n" "n < 2 ^ 53"
  shows "fl64 (of_int n) = of_int n"
proof -
  define k where "k = nat (53 - bitlen n)"
  from bitlen_le_53[OF assms] have b: "1 \<le> bitlen n" "bitlen n \<le> 53" by auto
  from assms(1) have x1: "(1::rat) \<le> of_int n" by simp
  have absx: "\<bar>of_int n :: rat\<bar> = of_int n"
    using assms(1) by simp
  from x1 have e: "expo (of_int n) = bitlen n - 1"
    by (simp add: expo_def)
  from b have m: "max (expo (of_int n) - 52) (- 1074) = - int k"
    unfolding e by (simp add: k_def)
  have u: "pow2 (- int k) = 1 / 2 ^ k"
    by (cases "k = 0") (simp_all add: pow2_def)
  have q: "(of_int n :: rat) / (1 / 2 ^ k) = of_int (n * 2 ^ k)"
    by simp
  from assms(1) have nz: "(of_int n :: rat) \<noteq> 0" "sgn (of_int n :: rat) = 1"
    by simp_all
  have "fl64 (of_int n) = sgn (of_int n :: rat) * of_int (round_half_even (of_int n / (1 / 2 ^ k))) * (1 / 2 ^ k)"
    unfolding fl64_def Let_def absx m u using nz(1) by (simp only: if_False)
  also have "\<dots> = of_int n"
    unfolding q round_half_even_of_int nz by simp
  finally show ?thesis .
qed

lemma f64_of_int_exact: "0 \<le> n \<Longrightarrow> n < 2 ^ 53 \<Longrightarrow> f64_of_int n = of_int n"
  using fl64_pos_int[of n] by (cases "n = 0") (simp_all add: f64_of_int_def fl64_def)

lemma stepY_value: "stepY = 7374644389819187 / 281474976710656"
  by code_simp

lemma row_y_values:
  "f64_mul (of_int 0) stepY = 0"
  "f64_mul (of_int 1) stepY = 7374644389819187 / 281474976710656"
  "f64_mul (of_int 2) stepY = 7374644389819187 / 140737488355328"
  "f64_mul (of_int 3) stepY = 2765491646182195 / 35184372088832"
  by code_simp+

lemma row_y_deltas:
  "f64_sub (7374644389819187 / 281474976710656) 0 = 7374644389819187 / 281474976710656"
  "f64_sub (7374644389819187 / 140737488355328) (7374644389819187 / 281474976710656) = 7374644389819187 / 281474976710656"
  "f64_sub (2765491646182195 / 35184372088832) (7374644389819187 / 140737488355328) = 3687322194909593 / 140737488355328"
  by code_simp+

subsection \<open>The shape of the grid\<close>

lemma fold_snoc_if:
  "fold (\<lambda>j dots. if c then dots @ [f j] else dots @ [g j]) xs dots =
   dots @ map (\<lambda>j. if c then f j else g j) xs"
  by (induction xs arbitrary: dots) simp_all

lemma range_py_4: "range_py 4 = [0, 1, 2, 3]"
  by (simp add: range_py_def upt_rec)

lemma length_range_py: "length (range_py n) = nat n"
  by (simp add: range_py_def)

lemma glueDots_rows:
  "glueDots L =
     concat (map (\<lambda>i. map (\<lambda>j. (if i mod 2 = 0 then j * stepX else (glueDots_X L - j - 1) * stepX,
                                   f64_mul (of_int i) stepY))
                           (range_py (glueDots_X L)))
                 [0, 1, 2, 3])"
  unfolding glueDots_def range_py_4 fold_snoc_if
  by (simp add: if_distrib[of "\<lambda>x. (x, _)"] cong: if_cong)

lemma length_glueDots: "length (glueDots L) = 4 * nat (glueDots_X L)"
  by (simp add: glueDots_rows length_range_py)

lemma grid_row_eq:
  assumes "i < 4"
  shows "grid_row L i =
     map (\<lambda>j. (if int i mod 2 = 0 then j * stepX else (glueDots_X L - j - 1) * stepX,
                f64_mul (of_int (int i)) stepY))
         (range_py (glueDots_X L))"
proof -
  from assms have "i = 0 \<or> i = 1 \<or> i = 2 \<or> i = 3" by auto
  then show ?thesis
    unfolding grid_row_def glueDots_rows
    by (elim disjE) (simp_all add: length_range_py)
qed

lemma glueDots_X_linear: "glueDots_X L = 4 * L - 2"
  by (simp add: glueDots_X_def)

lemma glueDots_blocks:
  "glueDots L = grid_row L 0 @ grid_row L 1 @ grid_row L 2 @ grid_row L 3"
  by (simp add: glueDots_rows grid_row_eq)

lemma length_grid_row: "i < 4 \<Longrightarrow> length (grid_row L i) = nat (glueDots_X L)"
  by (simp add: grid_row_eq length_range_py)

lemma range_py_nth: "j < nat n \<Longrightarrow> range_py n ! j = int j"
  by (simp add: range_py_def)

lemma grid_row_nth:
  assumes "i < 4" "j < nat (glueDots_X L)"
  shows "grid_row L i ! j =
    (if int i mod 2 = 0 then int j * stepX else (glueDots_X L - int j - 1) * stepX,
     f64_mul (of_int (int i)) stepY)"
  using assms by (simp add: grid_row_eq length_range_py range_py_nth)

lemma glueDots_nth:
  assumes "i < 4" "j < nat (glueDots_X L)"
  shows "glueDots L ! (i * nat (glueDots_X L) + j) = grid_row L i ! j"
  using assms by (simp add: grid_row_def length_glueDots)

lemma sorted_wrt_map_upt:
  "(\<And>a b. a < b \<Longrightarrow> b < n \<Longrightarrow> P (f a) (f b)) \<Longrightarrow> sorted_wrt P (map f [0..<n])"
  by (simp add: sorted_wrt_iff_nth_less)

subsection \<open>What the script writes\<close>

lemma write_dot_eq:
  "write_dot coord i (old, out) =
     (coord ! i, out @ [dot_line (coord ! i) old i, glueDeposition 2 1 1])"
  by (simp add: write_dot_def dot_line_def Let_def)

lemma write_dot_fold:
  "fold (write_dot coord) [0..<n] (coord ! 0, out) =
     (previous_dot coord n,
      out @ concat (map (\<lambda>i. [dot_line (coord ! i) (previous_dot coord i) i, glueDeposition 2 1 1]) [0..<n]))"
proof (induction n)
  case 0
  show ?case by (simp add: previous_dot_def)
next
  case (Suc n)
  show ?case
    by (simp add: Suc write_dot_eq) (simp add: previous_dot_def)
qed

lemma concat_pairs_length: "length (concat (map (\<lambda>i. [f i, g i]) [0..<n])) = 2 * n"
  by (induction n) simp_all

lemma concat_pairs_nth:
  "i < n \<Longrightarrow> concat (map (\<lambda>i. [f i, g i]) [0..<n]) ! (2 * i) = f i \<and>
             concat (map (\<lambda>i. [f i, g i]) [0..<n]) ! (2 * i + 1) = g i"
proof (induction n)
  case 0
  then show ?case by simp
next
  case (Suc n)
  show ?case
  proof (cases "i < n")
    case True
    with Suc.IH show ?thesis
      by (simp add: nth_append concat_pairs_length)
  next
    case False
    with Suc.prems have "i = n" by simp
    then show ?thesis
      by (simp add: nth_append concat_pairs_length)
  qed
qed

lemma script_empty:
  "glueCoord L = [] \<Longrightarrow> script L = \<lparr>printed = [], gcode = None, raised = Some IndexError\<rparr>"
  by (simp add: script_def Let_def)

lemma script_written:
  assumes "glueCoord L \<noteq> []"
  shows "script L =
     \<lparr>printed = [str_int (int (length (glueDots L)))],
      gcode = Some (''./'' @ str_int L @ ''Si.gcode'',
         initialize (0, 237) 1000 True #
         concat (map (\<lambda>i. [dot_line (glueCoord L ! i) (previous_dot (glueCoord L) i) i,
                           glueDeposition 2 1 1]) [0..<length (glueCoord L)]) @ [''SH'']),
      raised = None\<rparr>"
  using assms by (simp add: script_def Let_def write_dot_fold)

lemma written_nth:
  assumes "i < n"
  shows "(x # concat (map (\<lambda>i. [f i, g i]) [0..<n]) @ ys) ! (1 + 2 * i) = f i"
    and "(x # concat (map (\<lambda>i. [f i, g i]) [0..<n]) @ ys) ! (2 + 2 * i) = g i"
    and "length (x # concat (map (\<lambda>i. [f i, g i]) [0..<n]) @ ys) = 1 + 2 * n + length ys"
  using assms concat_pairs_nth[of i n f g]
  by (simp_all add: nth_append concat_pairs_length)

lemma glueCoord_empty_iff: "glueCoord L = [] \<longleftrightarrow> glueDots_X L \<le> 0"
  by (simp add: glueCoord_def glueDots_rows range_py_def)

lemma length_glueCoord: "length (glueCoord L) = 4 * nat (glueDots_X L)"
  by (simp add: glueCoord_def length_glueDots)

subsection \<open>Moves between consecutive dots\<close>

lemma fl64_zero: "fl64 0 = 0"
  by (simp add: fl64_def)

lemma fl64_step_consts: "fl64 20 = 20" "fl64 (- 20) = - 20"
  by code_simp+

lemma row_width_bounds:
  assumes "1 \<le> L" "L \<le> 12"
  shows "2 \<le> glueDots_X L" "glueDots_X L \<le> 46"
  using assms by (simp_all add: glueDots_X_linear)

lemma row_index_bound:
  assumes "r < 4" "j < w"
  shows "r * w + j < 4 * (w::nat)"
proof -
  from assms(1) have "Suc r * w \<le> 4 * w"
    by (intro mult_le_mono1) simp
  then have "r * w + w \<le> 4 * w"
    by (simp add: add.commute)
  with assms(2) show ?thesis by linarith
qed

lemma int_mod2_even: "int r mod 2 = 0 \<longleftrightarrow> even r"
  by presburger

lemma glueCoord_at:
  assumes L: "1 \<le> L" "L \<le> 12" and r: "r < 4" and j: "j < nat (glueDots_X L)"
  shows "glueCoord L ! (r * nat (glueDots_X L) + j) =
     (of_int (if even r then int j * 20 else (glueDots_X L - int j - 1) * 20),
      f64_mul (of_nat r) stepY)"
proof -
  let ?w = "nat (glueDots_X L)"
  let ?x = "if even r then int j * 20 else (glueDots_X L - int j - 1) * 20"
  from row_index_bound[OF r j] have idx: "r * ?w + j < length (glueDots L)"
    by (simp add: length_glueDots)
  have dot: "glueDots L ! (r * ?w + j) = (?x, f64_mul (of_nat r) stepY)"
    by (simp add: glueDots_nth[OF r j] grid_row_nth[OF r j] int_mod2_even stepX_def)
  from row_width_bounds[OF L] j have "0 \<le> ?x" "?x \<le> 900"
    by auto
  then have "f64_of_int ?x = of_int ?x"
    by (intro f64_of_int_exact) simp_all
  with dot idx show ?thesis
    by (simp add: glueCoord_def)
qed

lemma delta_within_row:
  assumes L: "1 \<le> L" "L \<le> 12" and r: "r < 4" and j: "j + 1 < nat (glueDots_X L)"
  shows "delta_of (glueCoord L ! (r * nat (glueDots_X L) + (j + 1)))
                  (glueCoord L ! (r * nat (glueDots_X L) + j)) =
         (if even r then 20 else - 20, 0)"
proof -
  from j have j0: "j < nat (glueDots_X L)" by simp
  show ?thesis
    unfolding glueCoord_at[OF L r j] glueCoord_at[OF L r j0]
    by (simp add: delta_of_def f64_sub_def fl64_zero fl64_step_consts algebra_simps)
qed

lemma delta_row_change:
  assumes L: "1 \<le> L" "L \<le> 12" and r: "r < 3"
  shows "delta_of (glueCoord L ! (Suc r * nat (glueDots_X L)))
                  (glueCoord L ! (r * nat (glueDots_X L) + (nat (glueDots_X L) - 1))) =
         (0, f64_sub (f64_mul (of_nat (Suc r)) stepY) (f64_mul (of_nat r) stepY))"
proof -
  let ?w = "nat (glueDots_X L)"
  from row_width_bounds[OF L] have w: "0 < ?w" "?w - 1 < ?w" "int (?w - Suc 0) = glueDots_X L - 1"
    by simp_all
  from r have r4: "r < 4" "Suc r < 4" by simp_all
  have a: "glueCoord L ! (Suc r * ?w) =
     (of_int (if even (Suc r) then 0 else (glueDots_X L - 1) * 20), f64_mul (of_nat (Suc r)) stepY)"
    using glueCoord_at[OF L r4(2) w(1)] by simp
  have b: "glueCoord L ! (r * ?w + (?w - 1)) =
     (of_int (if even r then (glueDots_X L - 1) * 20 else 0), f64_mul (of_nat r) stepY)"
    using glueCoord_at[OF L r4(1) w(2)] by (simp add: w(3))
  show ?thesis
    unfolding a b by (simp add: delta_of_def f64_sub_def fl64_zero)
qed

lemma row_change_dy:
  "f64_sub (f64_mul (of_nat (Suc 0)) stepY) (f64_mul (of_nat 0) stepY) = stepY"
  "f64_sub (f64_mul (of_nat (Suc 1)) stepY) (f64_mul (of_nat 1) stepY) = stepY"
  "f64_sub (f64_mul (of_nat (Suc 2)) stepY) (f64_mul (of_nat 2) stepY) = stepY - 1 / 2 ^ 48"
  by code_simp+

lemma row_change_dy_nonzero:
  assumes "r < 3"
  shows "f64_sub (f64_mul (of_nat (Suc r)) stepY) (f64_mul (of_nat r) stepY) \<noteq> 0"
proof -
  have s: "stepY \<noteq> 0" "stepY - 1 / 2 ^ 48 \<noteq> 0"
    by (simp_all add: stepY_value)
  from assms have "r = 0 \<or> r = 1 \<or> r = 2" by auto
  then show ?thesis
    using row_change_dy s by (elim disjE) simp_all
qed

lemma consecutive_delta_nonzero:
  assumes L: "1 \<le> L" "L \<le> 12" and i: "0 < i" "i < length (glueCoord L)"
  shows "\<not> (fst (delta_of (glueCoord L ! i) (glueCoord L ! (i - 1))) = 0 \<and>
            snd (delta_of (glueCoord L ! i) (glueCoord L ! (i - 1))) = 0)"
proof -
  let ?w = "nat (glueDots_X L)"
  from row_width_bounds[OF L] have w: "0 < ?w" by simp
  define k where "k = i - 1"
  define r where "r = k div ?w"
  define j where "j = k mod ?w"
  from i have ik: "i = k + 1" by (simp add: k_def)
  have k: "k = r * ?w + j" by (simp add: r_def j_def)
  from w have jw: "j < ?w" by (simp add: j_def)
  from i have "k < 4 * ?w" by (simp add: k_def length_glueCoord)
  then have r4: "r < 4" unfolding r_def using w by (simp add: less_mult_imp_div_less mult.commute)
  show ?thesis
  proof (cases "j + 1 < ?w")
    case True
    have "delta_of (glueCoord L ! i) (glueCoord L ! (i - 1)) = (if even r then 20 else - 20, 0)"
      using delta_within_row[OF L r4 True] by (simp add: ik k add.assoc)
    then show ?thesis by simp
  next
    case False
    with jw have j: "j = ?w - 1" by simp
    with w have i': "i = Suc r * ?w" by (simp add: ik k)
    with i(2) have "Suc r * ?w < 4 * ?w" by (simp add: length_glueCoord)
    then have r3: "r < 3" by simp
    have e: "Suc r * ?w = i" "r * ?w + (?w - 1) = i - 1"
      using i' k j by (simp_all add: k_def)
    have "delta_of (glueCoord L ! i) (glueCoord L ! (i - 1)) =
          (0, f64_sub (f64_mul (of_nat (Suc r)) stepY) (f64_mul (of_nat r) stepY))"
      using delta_row_change[OF L r3] unfolding e .
    with row_change_dy_nonzero[OF r3] show ?thesis by simp
  qed
qed

lemma fmt_row_change: "fmt_3f stepY = ''26.200''" "fmt_3f (stepY - 1 / 2 ^ 48) = ''26.200''"
  by code_simp+

lemma stepY_ulp: "stepY - 1 / 2 ^ 48 \<noteq> stepY"
  by simp

lemma first_dot_line_0: "first_dot_line 0 = ''; First glue dot in position (0, 0)'' @ nl"
  by code_simp

lemma delta_self: "delta_of xy xy = (0, 0)"
  by (simp add: delta_of_def f64_sub_def fl64_zero)

lemma take3_moveTo: "take 3 (moveTo d True c) = ''G00''"
  by (simp add: moveTo_def Let_def)

subsection \<open>Logical positions\<close>

lemma move_line_46:
  "moveTo (0, stepY) True (dot_comment 46) = ''G00Y26.200 ; Glue dot in position (46, 0)'' @ nl"
  by code_simp

lemma position_coord_values:
  "position_coord (46, 0) = (920, 0)"
  "position_coord (45, 1) = (900, stepY)"
  "spec_position 46 46 = (45, 1)"
  by code_simp+

lemma spec_position_round_trip:
  assumes L: "1 \<le> L" "L \<le> 12" and i: "i < length (glueCoord L)"
  shows "position_coord (spec_position (glueDots_X L) (int i)) = glueCoord L ! i"
proof -
  let ?w = "nat (glueDots_X L)"
  from row_width_bounds[OF L] have w: "0 < ?w" "int ?w = glueDots_X L" "glueDots_X L \<le> 46"
    by simp_all
  define r where "r = i div ?w"
  define j where "j = i mod ?w"
  have k: "i = r * ?w + j" by (simp add: r_def j_def)
  from w have jw: "j < ?w" by (simp add: j_def)
  from i have "i < 4 * ?w" by (simp add: length_glueCoord)
  then have r4: "r < 4" unfolding r_def using w by (simp add: less_mult_imp_div_less mult.commute)
  have d: "int i div glueDots_X L = int r" "int i mod glueDots_X L = int j"
    using zdiv_int[of i ?w] zmod_int[of i ?w] row_width_bounds(1)[OF L]
    by (simp_all add: r_def j_def)
  from r4 have m: "int r mod 4 = int r" by simp
  let ?col = "if even r then int j else glueDots_X L - 1 - int j"
  have sp: "spec_position (glueDots_X L) (int i) = (?col, int r)"
    by (simp add: spec_position_def Let_def d m int_mod2_even)
  from jw w have "0 \<le> ?col * stepX" "?col * stepX \<le> 900"
    by (auto simp: stepX_def)
  then have "f64_of_int (?col * stepX) = of_int (?col * stepX)"
    by (intro f64_of_int_exact) simp_all
  then have "position_coord (?col, int r) =
     (of_int (if even r then int j * 20 else (glueDots_X L - int j - 1) * 20), f64_mul (of_nat r) stepY)"
    by (simp add: position_coord_def stepX_def algebra_simps)
  with glueCoord_at[OF L r4 jw] sp show ?thesis
    by (simp add: k)
qed

section \<open>The properties of the specification\<close>

text \<open>
  C1. For every valid ladder length \<open>L\<close> (1 to 12) the grid has exactly
  \<open>4 \<times> glueDots_X L\<close> dots: four rows of \<open>glueDots_X L\<close> dots each, row 0 first, row \<open>i\<close>
  being the dots appended in pass \<open>i\<close> of the outer loop. The row width is strictly
  increasing in the ladder length.
\<close>

theorem grid_size_and_row_width:
  assumes "1 \<le> L" and "L \<le> 12"
  shows "0 < glueDots_X L \<and>
         length (glueDots L) = nat (4 * glueDots_X L) \<and>
         glueDots L = grid_row L 0 @ grid_row L 1 @ grid_row L 2 @ grid_row L 3 \<and>
         (\<forall>i<4. length (grid_row L i) = nat (glueDots_X L) \<and>
                grid_row L i =
                  map (\<lambda>j. (if int i mod 2 = 0 then j * stepX else (glueDots_X L - j - 1) * stepX,
                             f64_mul (of_int (int i)) stepY))
                      (range_py (glueDots_X L))) \<and>
         (\<forall>a b. a < b \<longrightarrow> glueDots_X a < glueDots_X b)"
proof -
  from assms have "0 < glueDots_X L"
    by (simp add: glueDots_X_linear)
  moreover have "length (glueDots L) = nat (4 * glueDots_X L)"
    by (simp add: length_glueDots nat_mult_distrib)
  moreover have "\<forall>a b. a < b \<longrightarrow> glueDots_X a < glueDots_X b"
    by (simp add: glueDots_X_linear)
  ultimately show ?thesis
    using glueDots_blocks[of L] length_grid_row[of _ L] grid_row_eq[of _ L] by blast
qed

theorem grid_size_and_row_width_witness:
  "(1::int) \<le> 12 \<and> (12::int) \<le> 12 \<and> glueDots_X 12 = 46 \<and> length (glueDots 12) = 184 \<and>
   length (grid_row 12 3) = 46 \<and> glueDots_X 11 < glueDots_X 12"
  using grid_size_and_row_width[of 12] by (simp add: glueDots_X_def length_range_py)

text \<open>
  C2. Serpentine invariant. In every row \<open>i\<close> of the grid (\<open>i\<close> from 0 to 3) the
  x-coordinates are non-decreasing along the row when \<open>i\<close> is even and non-increasing when
  \<open>i\<close> is odd, and every dot of the row has the y-coordinate \<^verbatim>\<open>i*stepY\<close>, the float
  product the loop computes.
\<close>

theorem serpentine_rows:
  assumes "i < 4"
  shows "length (grid_row L i) = nat (glueDots_X L) \<and>
         (even i \<longrightarrow> sorted_wrt (\<lambda>a b. a \<le> b) (map fst (grid_row L i))) \<and>
         (odd i \<longrightarrow> sorted_wrt (\<lambda>a b. b \<le> a) (map fst (grid_row L i))) \<and>
         (\<forall>d \<in> set (grid_row L i). snd d = f64_mul (of_nat i) stepY)"
proof -
  have ev: "int i mod 2 = 0 \<longleftrightarrow> even i"
    by presburger
  have up: "even i \<Longrightarrow> sorted_wrt (\<lambda>a b. a \<le> b) (map fst (grid_row L i))"
    unfolding grid_row_eq[OF assms] range_py_def map_map
    by (rule sorted_wrt_map_upt) (simp add: stepX_def ev)
  have down: "odd i \<Longrightarrow> sorted_wrt (\<lambda>a b. b \<le> a) (map fst (grid_row L i))"
    unfolding grid_row_eq[OF assms] range_py_def map_map
    by (rule sorted_wrt_map_upt) (simp add: stepX_def ev)
  have y: "\<forall>d \<in> set (grid_row L i). snd d = f64_mul (of_nat i) stepY"
    by (auto simp: grid_row_eq[OF assms])
  from up down y length_grid_row[OF assms, of L] show ?thesis by blast
qed

theorem serpentine_rows_witness:
  "(0::nat) < 4 \<and> (1::nat) < 4 \<and> length (grid_row 12 1) = 46 \<and>
   sorted_wrt (\<lambda>a b. a \<le> b) (map fst (grid_row 12 0)) \<and>
   sorted_wrt (\<lambda>a b. b \<le> a) (map fst (grid_row 12 1)) \<and>
   list_all (\<lambda>d. snd d = f64_mul 1 stepY) (grid_row 12 1)"
  using serpentine_rows[of 1 12] serpentine_rows[of 0 12]
  by (simp add: glueDots_X_def list_all_iff)

text \<open>
  C3. As worded, the claim does not hold at the last change of row. The y-coordinates are
  the floats \<^verbatim>\<open>i*stepY\<close>; the float difference \<^verbatim>\<open>3*stepY - 2*stepY\<close> is one unit in
  the last place below \<^verbatim>\<open>stepY\<close> (Python prints it as \<^verbatim>\<open>26.199999999999996\<close>). For the
  ladder length 12 the last dot of row 2 has index 137 and the first dot of row 3 has
  index 138.
\<close>

theorem adjacent_dot_counterexample:
  "delta_of (glueCoord 12 ! 138) (glueCoord 12 ! 137) = (0, stepY - 1 / 2 ^ 48) \<and>
   snd (delta_of (glueCoord 12 ! 138) (glueCoord 12 ! 137)) \<noteq> stepY"
proof -
  have w: "nat (glueDots_X 12) = 46" by (simp add: glueDots_X_def)
  have "delta_of (glueCoord 12 ! (Suc 2 * nat (glueDots_X 12)))
          (glueCoord 12 ! (2 * nat (glueDots_X 12) + (nat (glueDots_X 12) - 1))) =
        (0, f64_sub (f64_mul (of_nat (Suc 2)) stepY) (f64_mul (of_nat 2) stepY))"
    by (rule delta_row_change) simp_all
  then show ?thesis
    unfolding w row_change_dy by simp
qed

text \<open>
  C3, amended. For every valid ladder length: two consecutive dots of one row (dots \<open>j\<close>
  and \<open>j + 1\<close> of row \<open>r\<close>) are \<open>stepX\<close> apart in x and have the same y; from the last dot
  of row \<open>r\<close> to the first dot of row \<open>r + 1\<close> the x-coordinate does not change and the
  y-coordinate changes by \<open>stepY\<close> for \<open>r = 0, 1\<close> and by \<open>stepY - 2\<^sup>-\<^sup>4\<^sup>8\<close> for \<open>r = 2\<close>, which
  the move emitter prints as \<^verbatim>\<open>26.200\<close> in all three cases.
\<close>

theorem adjacent_dot_deltas:
  assumes "1 \<le> L" and "L \<le> 12"
  shows "(r < 4 \<and> j + 1 < nat (glueDots_X L) \<longrightarrow>
            \<bar>fst (delta_of (glueCoord L ! (r * nat (glueDots_X L) + (j + 1)))
                            (glueCoord L ! (r * nat (glueDots_X L) + j)))\<bar> = of_int stepX \<and>
            snd (delta_of (glueCoord L ! (r * nat (glueDots_X L) + (j + 1)))
                          (glueCoord L ! (r * nat (glueDots_X L) + j))) = 0) \<and>
         (r < 3 \<longrightarrow>
            fst (delta_of (glueCoord L ! (Suc r * nat (glueDots_X L)))
                  (glueCoord L ! (r * nat (glueDots_X L) + (nat (glueDots_X L) - 1)))) = 0 \<and>
            snd (delta_of (glueCoord L ! (Suc r * nat (glueDots_X L)))
                  (glueCoord L ! (r * nat (glueDots_X L) + (nat (glueDots_X L) - 1)))) =
              (if r < 2 then stepY else stepY - 1 / 2 ^ 48) \<and>
            fmt_3f (snd (delta_of (glueCoord L ! (Suc r * nat (glueDots_X L)))
                  (glueCoord L ! (r * nat (glueDots_X L) + (nat (glueDots_X L) - 1))))) = ''26.200'')"
proof -
  have a: "\<bar>fst (delta_of (glueCoord L ! (r * nat (glueDots_X L) + (j + 1)))
                            (glueCoord L ! (r * nat (glueDots_X L) + j)))\<bar> = of_int stepX \<and>
            snd (delta_of (glueCoord L ! (r * nat (glueDots_X L) + (j + 1)))
                          (glueCoord L ! (r * nat (glueDots_X L) + j))) = 0"
    if "r < 4" "j + 1 < nat (glueDots_X L)"
    unfolding delta_within_row[OF assms that] by (simp add: stepX_def)
  have b: "fst (delta_of (glueCoord L ! (Suc r * nat (glueDots_X L)))
                  (glueCoord L ! (r * nat (glueDots_X L) + (nat (glueDots_X L) - 1)))) = 0 \<and>
            snd (delta_of (glueCoord L ! (Suc r * nat (glueDots_X L)))
                  (glueCoord L ! (r * nat (glueDots_X L) + (nat (glueDots_X L) - 1)))) =
              (if r < 2 then stepY else stepY - 1 / 2 ^ 48) \<and>
            fmt_3f (snd (delta_of (glueCoord L ! (Suc r * nat (glueDots_X L)))
                  (glueCoord L ! (r * nat (glueDots_X L) + (nat (glueDots_X L) - 1))))) = ''26.200''"
    if r: "r < 3"
  proof -
    from r have "r = 0 \<or> r = 1 \<or> r = 2" by auto
    then show ?thesis
      unfolding delta_row_change[OF assms r]
      using row_change_dy fmt_row_change by (elim disjE) simp_all
  qed
  from a b show ?thesis by blast
qed

theorem adjacent_dot_deltas_witness:
  "(1::int) \<le> 12 \<and> (12::int) \<le> 12 \<and>
   \<bar>fst (delta_of (glueCoord 12 ! 47) (glueCoord 12 ! 46))\<bar> = 20 \<and>
   snd (delta_of (glueCoord 12 ! 47) (glueCoord 12 ! 46)) = 0 \<and>
   delta_of (glueCoord 12 ! 46) (glueCoord 12 ! 45) = (0, stepY)"
  using adjacent_dot_deltas[of 12 1 0] adjacent_dot_deltas[of 12 0 0]
  by (simp add: glueDots_X_def stepX_def prod_eq_iff)

text \<open>
  C4. The comment of the writing loop derives the logical position from the constant 51,
  not from the row width. For the ladder length 12 the row width is 46: the line written
  for dot 46, the first dot of row 1 at \<open>(900, stepY)\<close>, names the position \<open>(46, 0)\<close>,
  whose coordinate would be \<open>(920, 0)\<close>. The position the specification derives from the
  row width, \<open>(45, 1)\<close>, does give the coordinate of the dot (in general:
  \<open>spec_position_round_trip\<close>).
\<close>

theorem position_comment_at_row_change:
  "\<exists>name written.
     gcode (script 12) = Some (name, written) \<and>
     written ! 93 = ''G00Y26.200 ; Glue dot in position (46, 0)'' @ nl \<and>
     glueCoord 12 ! 46 = (900, stepY) \<and>
     position_coord (46, 0) = (920, 0) \<and>
     position_coord (46, 0) \<noteq> glueCoord 12 ! 46 \<and>
     spec_position (glueDots_X 12) 46 = (45, 1) \<and>
     position_coord (45, 1) = glueCoord 12 ! 46"
proof -
  let ?c = "glueCoord 12"
  let ?f = "\<lambda>i. dot_line (?c ! i) (previous_dot ?c i) i"
  let ?g = "\<lambda>i::nat. glueDeposition 2 1 1"
  let ?written = "initialize (0, 237) 1000 True # concat (map (\<lambda>i. [?f i, ?g i]) [0..<length ?c]) @ [''SH'']"
  have w: "glueDots_X 12 = 46" by (simp add: glueDots_X_def)
  have len: "length ?c = 184" by (simp add: length_glueCoord w)
  then have ne: "?c \<noteq> []" by auto
  have g: "gcode (script 12) = Some (''./'' @ str_int 12 @ ''Si.gcode'', ?written)"
    by (simp add: script_written[OF ne])
  have "46 < length ?c" by (simp add: len)
  from written_nth(1)[OF this, of _ ?f ?g] have line: "?written ! 93 = ?f 46"
    by simp
  have "delta_of (?c ! (Suc 0 * nat (glueDots_X 12)))
          (?c ! (0 * nat (glueDots_X 12) + (nat (glueDots_X 12) - 1))) =
        (0, f64_sub (f64_mul (of_nat (Suc 0)) stepY) (f64_mul (of_nat 0) stepY))"
    by (rule delta_row_change) simp_all
  then have d: "delta_of (?c ! 46) (?c ! 45) = (0, stepY)"
    unfolding row_change_dy by (simp add: w)
  have s: "stepY \<noteq> 0" by (simp add: stepY_value)
  have f: "?f 46 = ''G00Y26.200 ; Glue dot in position (46, 0)'' @ nl"
    using s by (simp add: dot_line_def previous_dot_def d fastmovement_def move_line_46 del: append.simps)
  have c46: "?c ! 46 = (900, stepY)"
    using glueCoord_at[of 12 1 0] row_y_values(2) by (simp add: w stepY_value)
  have "(920::rat, 0::rat) \<noteq> (900, stepY)" by simp
  with g line f c46 position_coord_values show ?thesis
    by (simp add: w)
qed

text \<open>
  C5. For every valid ladder length and every dot index \<open>i\<close>: the move from the previous
  position (\<^verbatim>\<open>oldXY\<close>, which is the first dot itself in pass 0) to dot \<open>i\<close> is
  \<open>(0, 0)\<close> exactly when \<open>i = 0\<close>. For \<open>i = 0\<close> the script writes the comment line of the
  first dot and no motion instruction; for every \<open>i > 0\<close> it writes the line of \<^verbatim>\<open>moveTo\<close>
  for the move, a \<^verbatim>\<open>G00\<close> instruction. The deposition block follows in both cases.
\<close>

theorem zero_delta_only_at_first_dot:
  assumes "1 \<le> L" and "L \<le> 12" and "i < length (glueCoord L)"
  shows "\<exists>name written.
           gcode (script L) = Some (name, written) \<and>
           length written = 2 * length (glueCoord L) + 2 \<and>
           (delta_of (glueCoord L ! i) (previous_dot (glueCoord L) i) = (0, 0) \<longleftrightarrow> i = 0) \<and>
           (i = 0 \<longrightarrow> written ! 1 = ''; First glue dot in position (0, 0)'' @ nl) \<and>
           (0 < i \<longrightarrow>
              written ! (1 + 2 * i) =
                moveTo (delta_of (glueCoord L ! i) (glueCoord L ! (i - 1))) True (dot_comment (int i)) \<and>
              take 3 (written ! (1 + 2 * i)) = ''G00'') \<and>
           written ! (2 + 2 * i) = glueDeposition 2 1 1"
proof -
  let ?c = "glueCoord L"
  let ?f = "\<lambda>i. dot_line (?c ! i) (previous_dot ?c i) i"
  let ?g = "\<lambda>i::nat. glueDeposition 2 1 1"
  let ?written = "initialize (0, 237) 1000 True # concat (map (\<lambda>i. [?f i, ?g i]) [0..<length ?c]) @ [''SH'']"
  from assms(3) have ne: "?c \<noteq> []" by auto
  have g: "gcode (script L) = Some (''./'' @ str_int L @ ''Si.gcode'', ?written)"
    by (simp add: script_written[OF ne])
  have len: "length ?written = 2 * length ?c + 2"
    by (simp add: concat_pairs_length)
  have line: "?written ! (1 + 2 * i) = ?f i" and dep: "?written ! (2 + 2 * i) = glueDeposition 2 1 1"
    using written_nth(1)[OF assms(3), of _ ?f ?g] written_nth(2)[OF assms(3), of _ ?f ?g] by simp_all
  have nz: "\<not> (fst (delta_of (?c ! i) (?c ! (i - 1))) = 0 \<and> snd (delta_of (?c ! i) (?c ! (i - 1))) = 0)"
    if "0 < i"
    using consecutive_delta_nonzero[OF assms(1,2) that assms(3)] .
  have z: "delta_of (?c ! i) (previous_dot ?c i) = (0, 0) \<longleftrightarrow> i = 0"
  proof (cases "i = 0")
    case True
    then show ?thesis by (simp add: previous_dot_def delta_self)
  next
    case False
    with nz show ?thesis by (auto simp: previous_dot_def)
  qed
  have first: "?written ! 1 = ''; First glue dot in position (0, 0)'' @ nl" if "i = 0"
    using line that by (simp add: dot_line_def previous_dot_def delta_self first_dot_line_0)
  have move: "?written ! (1 + 2 * i) =
                moveTo (delta_of (?c ! i) (?c ! (i - 1))) True (dot_comment (int i)) \<and>
              take 3 (?written ! (1 + 2 * i)) = ''G00''" if "0 < i"
    unfolding line using that nz[OF that]
    by (simp add: dot_line_def previous_dot_def fastmovement_def take3_moveTo)
  from g len z first move dep show ?thesis by blast
qed

theorem zero_delta_only_at_first_dot_witness:
  "(1::int) \<le> 12 \<and> (12::int) \<le> 12 \<and> (1::nat) < length (glueCoord 12) \<and>
   (\<exists>name written.
      gcode (script 12) = Some (name, written) \<and> length written = 370 \<and>
      delta_of (glueCoord 12 ! 0) (previous_dot (glueCoord 12) 0) = (0, 0) \<and>
      written ! 1 = ''; First glue dot in position (0, 0)'' @ nl \<and>
      delta_of (glueCoord 12 ! 1) (previous_dot (glueCoord 12) 1) \<noteq> (0, 0) \<and>
      take 3 (written ! 3) = ''G00'')"
  using zero_delta_only_at_first_dot[of 12 1] zero_delta_only_at_first_dot[of 12 0]
  by (auto simp: length_glueCoord glueDots_X_def numeral_3_eq_3)

text \<open>
  C6. For every move \<open>(dx, dy)\<close>, flag and comment, the line of \<^verbatim>\<open>moveTo\<close> is: the code
  \<^verbatim>\<open>G00\<close> when the flag is set and \<^verbatim>\<open>G01\<close> otherwise; the field \<^verbatim>\<open>X\<close> exactly when
  \<open>dx \<noteq> 0\<close>; the field \<^verbatim>\<open>Y\<close> exactly when \<open>dy \<noteq> 0\<close>; the comment as given; the line
  terminator. The number of a field is printed with exactly three decimals.
\<close>

theorem moveTo_line:
  "moveTo (dx, dy) fast comment =
     (if fast then ''G00'' else ''G01'') @
     (if dx \<noteq> 0 then ''X'' @ fmt_3f dx else []) @
     (if dy \<noteq> 0 then ''Y'' @ fmt_3f dy else []) @
     comment @ nl \<and>
   three_decimals (fmt_3f dx) \<and> three_decimals (fmt_3f dy)"
  by (simp add: moveTo_def Let_def three_decimals_fmt_3f)

theorem moveTo_line_witness:
  "moveTo (20, 0) True '' ; dot'' = ''G00X20.000 ; dot'' @ nl \<and>
   moveTo (0, - 131 / 5) False [] = ''G01Y-26.200'' @ nl \<and>
   moveTo (20, - 131 / 5) False [] = ''G01X20.000Y-26.200'' @ nl \<and>
   three_decimals ''20.000'' \<and> three_decimals ''-26.200''"
  using moveTo_line[of 20 0 True "'' ; dot''"] moveTo_line[of 0 "- 131 / 5" False "[]"]
    moveTo_line[of 20 "- 131 / 5" False "[]"]
  by (simp add: fmt_3f_examples)

text \<open>
  C7. As worded, the claim does not hold: the block of \<^verbatim>\<open>glueDeposition\<close> has ten lines,
  not nine.
\<close>

theorem deposition_line_count_counterexample:
  "length (lines_of (glueDeposition 2 1 1)) = 10 \<and> length (lines_of (glueDeposition 2 1 1)) \<noteq> 9"
  by (simp add: lines_of_glueDeposition)

text \<open>
  C7, amended. With the pauses 2, 1 and 1 the block has exactly the ten lines below, each
  ended by the terminator; the two dwell lines of the long pause (lines 2 and 8) are the
  same; every dwell field has three digits, padded with zeros (as for every pause from 0
  to 999). The sequence of lines is the same for all pauses, and the script writes this
  very block after the positioning step of every dot, whatever its position.
\<close>

theorem deposition_block:
  "lines_of (glueDeposition 2 1 1) =
     [''; ------- Glue deposition -------'', ''M4'', ''G4 P002'', ''M8'', ''G4 P001'', ''M9'',
      ''G4 P001'', ''M3'', ''G4 P002'', ''; ------- End of glue deposition -------''] \<and>
   glueDeposition 2 1 1 = concat (map (\<lambda>l. l @ nl) (lines_of (glueDeposition 2 1 1))) \<and>
   length (lines_of (glueDeposition 2 1 1)) = 10 \<and>
   lines_of (glueDeposition 2 1 1) ! 2 = lines_of (glueDeposition 2 1 1) ! 8 \<and>
   lines_of (glueDeposition a b c) =
     [''; ------- Glue deposition -------'', ''M4'', ''G4 P'' @ fmt_03d a, ''M8'',
      ''G4 P'' @ fmt_03d b, ''M9'', ''G4 P'' @ fmt_03d c, ''M3'', ''G4 P'' @ fmt_03d a,
      ''; ------- End of glue deposition -------''] \<and>
   (0 \<le> p \<and> p < 1000 \<longrightarrow> length (fmt_03d p) = 3 \<and> list_all is_digit (fmt_03d p)) \<and>
   (gcode (script L) = Some (name, written) \<and> i < length (glueCoord L) \<longrightarrow>
      written ! (2 + 2 * i) = glueDeposition 2 1 1)"
proof -
  have l: "lines_of (glueDeposition 2 1 1) =
     [''; ------- Glue deposition -------'', ''M4'', ''G4 P002'', ''M8'', ''G4 P001'', ''M9'',
      ''G4 P001'', ''M3'', ''G4 P002'', ''; ------- End of glue deposition -------'']"
    by (simp add: lines_of_glueDeposition fmt_consts)
  have u: "glueDeposition 2 1 1 = concat (map (\<lambda>l. l @ nl) (lines_of (glueDeposition 2 1 1)))"
    unfolding lines_of_glueDeposition by (rule glueDeposition_unlines)
  have s: "written ! (2 + 2 * i) = glueDeposition 2 1 1"
    if g: "gcode (script L) = Some (name, written)" and i: "i < length (glueCoord L)"
  proof -
    from i have ne: "glueCoord L \<noteq> []" by auto
    from g have "written = initialize (0, 237) 1000 True #
         concat (map (\<lambda>i. [dot_line (glueCoord L ! i) (previous_dot (glueCoord L) i) i,
                           glueDeposition 2 1 1]) [0..<length (glueCoord L)]) @ [''SH'']"
      by (simp add: script_written[OF ne])
    then show ?thesis
      using written_nth(2)[OF i, of _ "\<lambda>i. dot_line (glueCoord L ! i) (previous_dot (glueCoord L) i) i"
          "\<lambda>i. glueDeposition 2 1 1"]
      by simp
  qed
  from l u s fmt_03d_small[of p] lines_of_glueDeposition[of a b c] show ?thesis
    by (simp del: append.simps)
qed

theorem deposition_block_witness:
  "(0::int) \<le> 2 \<and> (2::int) < 1000 \<and> length (fmt_03d 2) = 3 \<and>
   (\<exists>name written. gcode (script 12) = Some (name, written) \<and> 183 < length (glueCoord 12) \<and>
      written ! 368 = glueDeposition 2 1 1)"
proof -
  have len: "length (glueCoord 12) = 184"
    by (simp add: length_glueCoord glueDots_X_def)
  then have "glueCoord 12 \<noteq> []" by auto
  from script_written[OF this] obtain name written
    where g: "gcode (script 12) = Some (name, written)" by simp
  from deposition_block[of 0 0 0 2 12 name written 183] g len show ?thesis
    by auto
qed

text \<open>
  C8. As worded, the claim does not hold: the script checks nothing, and the ladder
  length 13, outside the range 1 to 12, gives the row width 50 and a complete file.
\<close>

theorem out_of_range_counterexample:
  "glueDots_X 13 = 50 \<and> raised (script 13) = None \<and> gcode (script 13) \<noteq> None"
proof -
  have w: "glueDots_X 13 = 50" by (simp add: glueDots_X_def)
  then have "glueCoord 13 \<noteq> []" by (simp add: glueCoord_empty_iff)
  from script_written[OF this] w show ?thesis by simp
qed

text \<open>
  C8, amended. The row width is at most zero exactly for the ladder lengths \<open>L \<le> 0\<close>.
  For these the run ends with \<^verbatim>\<open>IndexError\<close>, raised by \<^verbatim>\<open>glueCoord[0]\<close> before anything
  is printed and before the file is opened, so no program text exists. For every other
  ladder length, also above 12, the run raises nothing and writes the file.
\<close>

theorem empty_grid_aborts:
  "(glueDots_X L \<le> 0 \<longleftrightarrow> L \<le> 0) \<and>
   (glueDots_X L \<le> 0 \<longrightarrow>
      script L = \<lparr>printed = [], gcode = None, raised = Some IndexError\<rparr> \<and>
      file_text (script L) = None) \<and>
   (0 < glueDots_X L \<longrightarrow> raised (script L) = None \<and> gcode (script L) \<noteq> None)"
proof -
  have a: "glueDots_X L \<le> 0 \<longleftrightarrow> L \<le> 0"
    unfolding glueDots_X_linear by presburger
  have b: "script L = \<lparr>printed = [], gcode = None, raised = Some IndexError\<rparr> \<and>
           file_text (script L) = None" if "glueDots_X L \<le> 0"
    using that script_empty[of L] by (simp add: glueCoord_empty_iff file_text_def)
  have c: "raised (script L) = None \<and> gcode (script L) \<noteq> None" if "0 < glueDots_X L"
  proof -
    from that have "glueCoord L \<noteq> []" by (simp add: glueCoord_empty_iff)
    from script_written[OF this] show ?thesis by simp
  qed
  from a b c show ?thesis by blast
qed

theorem empty_grid_aborts_witness:
  "glueDots_X 0 \<le> 0 \<and> script 0 = \<lparr>printed = [], gcode = None, raised = Some IndexError\<rparr> \<and>
   0 < glueDots_X 13 \<and> raised (script 13) = None"
  using empty_grid_aborts[of 0] empty_grid_aborts[of 13] by (simp add: glueDots_X_def)

text \<open>
  C9. Scenario A as the specification words it (ladder length 12, row width 50, 200 dots)
  does not hold: the formula of the script gives the row width 46 and 184 dots.
\<close>

theorem scenario_A_counterexample:
  "\<not> (glueDots_X 12 = 50 \<and> length (glueDots 12) = 200)"
  by (simp add: glueDots_X_def)

text \<open>
  C9, amended. For the ladder length 12 the row width is 46, the grid has 184 dots, the
  first dot is \<open>(0, 0)\<close> and the last dot of row 0 is \<open>((glueDots_X 12 - 1) \<times> stepX, 0)\<close>,
  that is \<open>(900, 0)\<close>.
\<close>

theorem scenario_A_max_ladder:
  "glueDots_X 12 = 46 \<and> length (glueDots 12) = 184 \<and>
   glueDots 12 ! 0 = (0, 0) \<and>
   last (grid_row 12 0) = ((glueDots_X 12 - 1) * stepX, 0) \<and>
   glueDots 12 ! 45 = (900, 0)"
proof -
  have w: "glueDots_X 12 = 46" by (simp add: glueDots_X_def)
  have a: "glueDots 12 ! 0 = (0, 0)"
    using glueDots_nth[of 0 0 12] grid_row_nth[of 0 0 12] by (simp add: w f64_mul_def fl64_def)
  have b: "glueDots 12 ! 45 = (900, 0)"
    using glueDots_nth[of 0 45 12] grid_row_nth[of 0 45 12]
    by (simp add: w f64_mul_def fl64_def stepX_def)
  have "grid_row 12 0 \<noteq> []"
    using length_grid_row[of 0 12] by (auto simp: w)
  then have "last (grid_row 12 0) = grid_row 12 0 ! 45"
    using length_grid_row[of 0 12] by (simp add: last_conv_nth w)
  then have c: "last (grid_row 12 0) = ((glueDots_X 12 - 1) * stepX, 0)"
    using grid_row_nth[of 0 45 12] by (simp add: w f64_mul_def fl64_def)
  show ?thesis using a b c by (simp add: w length_glueDots)
qed

text \<open>
  C10. The block of \<^verbatim>\<open>initialize\<close> has one positioning move, its tenth line, and that
  line always carries both fields \<^verbatim>\<open>X\<close> and \<^verbatim>\<open>Y\<close>, each with three decimals, also for a
  component that is zero: the default offset \<open>(0, 237)\<close> gives \<^verbatim>\<open>G00X0.000Y237.000\<close>, where
  \<^verbatim>\<open>moveTo\<close> for the same pair leaves the field \<^verbatim>\<open>X\<close> out.
\<close>

theorem initialize_positioning_move:
  "lines_of (initialize (zx, zy) feed_rate fast) =
     [''; Program initialization'', ''$100=159.949; X axis steps/mm'',
      ''$101=160.241; Y axis steps/mm'', ''$130=990; X axis maximum travel'',
      ''$X; GRBL unlock'', ''M3'', ''F'' @ str_int feed_rate, ''$H; GRBL homing'', ''G91'',
      (if fast then ''G00'' else ''G01'') @ ''X'' @ fmt_3f zx @ ''Y'' @ fmt_3f zy,
      ''; End of program initialization''] \<and>
   three_decimals (fmt_3f zx) \<and> three_decimals (fmt_3f zy) \<and>
   lines_of (initialize (0, 237) 1000 True) ! 9 = ''G00X0.000Y237.000'' \<and>
   moveTo (0, 237) True [] = ''G00Y237.000'' @ nl"
proof -
  have "lines_of (initialize (0, 237) 1000 True) ! 9 = ''G00X0.000Y237.000''"
    by (simp add: lines_of_initialize fmt_consts)
  moreover have "moveTo (0, 237) True [] = ''G00Y237.000'' @ nl"
    by (simp add: moveTo_def fmt_consts)
  ultimately show ?thesis
    using lines_of_initialize[of zx zy feed_rate fast] three_decimals_fmt_3f
    by (simp del: append.simps)
qed

end
